theory Spec2Isabelle
  imports Complex_Main "HOL-Library.AList" "HOL-Library.Sublist" "HOL-Library.Log_Nat"
begin

section \<open>The CI drivers of the VDB cache pipeline\<close>

text \<open>
  This theory embeds the three scripts under \<open>ci/\<close>:
  \<open>download_vdb_caches.py\<close>, \<open>read_write_test_compression.py\<close> and
  \<open>read_write_blosc_compression.py\<close>. The working directory is a map from file
  names to contents, the console is the list of lines printed so far, and every Python
  exception is a value. The libraries the scripts call (\<open>requests\<close>, \<open>zipfile\<close>,
  \<open>pyopenvdb\<close> and the \<open>vdb_ax\<close> executable) are parameters, collected in one record.
\<close>

subsection \<open>Data\<close>

type_synonym bytes = string

type_synonym fs = "string \<rightharpoonup> bytes"

text \<open>A grid as the scripts see it: an object with a \<open>name\<close> and a \<open>valueTypeName\<close>.\<close>

record grid =
  name :: string
  valueTypeName :: string

text \<open>
  \<open>vdb.readAll\<close> returns a Python sequence. The scripts take its length
  (\<open>len(grids)\<close>), pass its first element to \<open>vdb.write\<close> and rename the first
  member of that first element (\<open>grids[0][0].name\<close>): the first element is itself a
  sequence of grids. pyopenvdb returns the pair of the list of grids and the dict of
  file-level metadata. An element of the sequence is modelled as a list of grids, a single
  grid (which cannot be indexed) or a dict of metadata.
\<close>

datatype item = Grids "grid list" | Single grid | Meta "(string \<times> string) list"

datatype exn =
    RuntimeError string
  | IndexError
  | KeyError
  | TypeError
  | ZeroDivisionError
  | OverflowError
  | AssertionError
  | FileNotFoundError string
  | BadZipFile
  | IoError
  | OSError

subsection \<open>Python floats\<close>

text \<open>
  A Python float is an IEEE 754 double: a rational with a 53-bit significand and an exponent
  between \<open>-1022\<close> and \<open>1023\<close>, or infinity. Only values that are not negative occur
  here. \<open>expo x\<close> is the exponent of a positive \<open>x\<close> (the power of two at or below
  it), \<open>round_even\<close> rounds to the nearest integer, ties to even, and \<open>round_double\<close>
  rounds to the nearest double: the spacing of the doubles around \<open>x\<close> is
  \<open>2 powi (e - 52)\<close> for the exponent \<open>e\<close>, subnormal below \<open>2 powi (- 1022)\<close>, so the
  result is \<open>n\<close> spacings for an integer \<open>n\<close> of at most \<open>2 ^ 53\<close>. A result of
  \<open>2 powi 1024\<close> or more is infinity: the exponent is above 1023, or it is 1023 and
  \<open>n\<close> is \<open>2 ^ 53\<close>.
\<close>

datatype pyfloat = Fin rat | Inf

definition expo :: "rat \<Rightarrow> int" where
  "expo x =
     (let e0 = bitlen (fst (quotient_of x)) - bitlen (snd (quotient_of x))
      in if 2 powi e0 \<le> x then e0 else e0 - 1)"

definition round_even :: "rat \<Rightarrow> int" where
  "round_even r =
     (let n = \<lfloor>r\<rfloor>; part = r - of_int n
      in if part < 1 / 2 then n else if 1 / 2 < part then n + 1
         else if even n then n else n + 1)"

definition round_double :: "rat \<Rightarrow> pyfloat" where
  "round_double x =
     (if x = 0 then Fin 0
      else let e = max (expo x) (- 1022);
               u = 2 powi (e - 52);
               n = round_even (x / u)
           in if 1023 < e \<or> (e = 1023 \<and> 2 ^ 53 \<le> n) then Inf else Fin (of_int n * u))"

text \<open>
  \<open>float(n)\<close> for an int that is not negative, also the conversion of the int operand
  of \<open>n / y\<close>: the nearest double, or \<open>OverflowError\<close> when that is infinity.
\<close>

definition to_float :: "nat \<Rightarrow> exn + rat" where
  "to_float n = (case round_double (of_nat n) of Fin v \<Rightarrow> Inr v | Inf \<Rightarrow> Inl OverflowError)"

text \<open>
  \<open>n / y\<close> for an int \<open>n\<close> and a float \<open>y\<close>: the int is converted, a zero divisor
  raises \<open>ZeroDivisionError\<close>, and the quotient is rounded (to infinity when too large).
\<close>

definition true_div :: "nat \<Rightarrow> rat \<Rightarrow> exn + pyfloat" where
  "true_div n y =
     (case to_float n of
        Inl e \<Rightarrow> Inl e
      | Inr x \<Rightarrow> if y = 0 then Inl ZeroDivisionError else Inr (round_double (x / y)))"

text \<open>What the scripts print. Numbers and objects are kept as values, not as text.\<close>

datatype event =
    Print string
  | PrintExn exn
  | PrintGrids "item list"
  | InputSize nat
  | OutputSize nat
  | CompRatio pyfloat

record world =
  files :: fs
  console :: "event list"

text \<open>
  The external collaborators.
  \<^item> \<open>fetch url\<close>: what the download thread leaves in its file; \<open>None\<close> when
    \<open>requests.get\<close> raises before the file is opened.
  \<^item> \<open>unzip b\<close>: the members \<open>extractall\<close> writes for an archive with contents \<open>b\<close>,
    and the exception it raises, if any (members written before the exception stay on disk).
  \<^item> \<open>readAll\<close>, \<open>vdb_write\<close>, \<open>readAllGridMetadata\<close>: the pyopenvdb calls, on file
    contents.
  \<^item> \<open>vdb_ax a b code\<close>: the standard output of \<open>vdb_ax fileA fileB -s code\<close>, or the
    exception \<open>subprocess.Popen\<close> raises when the executable cannot be started.
\<close>

record env =
  fetch :: "string \<Rightarrow> bytes option"
  unzip :: "bytes \<Rightarrow> (string \<times> bytes) list \<times> exn option"
  readAll :: "bytes \<Rightarrow> exn + item list"
  vdb_write :: "grid list \<Rightarrow> exn + bytes"
  readAllGridMetadata :: "bytes \<Rightarrow> exn + grid list"
  vdb_ax :: "bytes \<Rightarrow> bytes \<Rightarrow> string \<Rightarrow> exn + string"

subsection \<open>Strings and paths\<close>

text \<open>\<open>os.path.basename\<close>: everything after the last slash.\<close>

definition basename :: "string \<Rightarrow> string" where
  "basename p = rev (takeWhile (\<lambda>c. c \<noteq> CHR ''/'') (rev p))"

text \<open>\<open>s.split(sep)[0]\<close> for a non-empty \<open>sep\<close>: the part of \<open>s\<close> before the first \<open>sep\<close>.\<close>

fun split_head :: "string \<Rightarrow> string \<Rightarrow> string" where
  "split_head sep [] = []"
| "split_head sep (c # cs) = (if prefix sep (c # cs) then [] else c # split_head sep cs)"

text \<open>\<open>s.replace(old, '')\<close> for a non-empty \<open>old\<close>, scanning from the left.\<close>

function remove_all :: "string \<Rightarrow> string \<Rightarrow> string" where
  "remove_all old [] = []"
| "remove_all old (c # cs) =
     (if old \<noteq> [] \<and> prefix old (c # cs) then remove_all old (drop (length old) (c # cs))
      else c # remove_all old cs)"
  by pat_completeness auto
termination
  by (relation "measure (\<lambda>(old, s). length s)") (auto simp: neq_Nil_conv)

text \<open>\<open>d.get(k)\<close> followed by \<open>if not name: name = fallback\<close>.\<close>

definition get_or :: "(string \<rightharpoonup> string) \<Rightarrow> string \<Rightarrow> string \<Rightarrow> string" where
  "get_or d k fallback = (case d k of None \<Rightarrow> fallback | Some v \<Rightarrow> if v = [] then fallback else v)"

subsection \<open>The file system\<close>

definition isfile :: "fs \<Rightarrow> string \<Rightarrow> bool" where
  "isfile f p = (p \<noteq> [] \<and> f p \<noteq> None)"

definition os_remove :: "string \<Rightarrow> fs \<Rightarrow> exn + fs" where
  "os_remove p f = (if isfile f p then Inr (f(p := None)) else Inl (FileNotFoundError p))"

definition getsize :: "fs \<Rightarrow> string \<Rightarrow> exn + nat" where
  "getsize f p = (if isfile f p then Inr (length (the (f p))) else Inl (FileNotFoundError p))"

definition read_file :: "fs \<Rightarrow> string \<Rightarrow> exn + bytes" where
  "read_file f p = (if isfile f p then Inr (the (f p)) else Inl (FileNotFoundError p))"

definition put :: "event \<Rightarrow> world \<Rightarrow> world" where
  "put e w = w\<lparr>console := console w @ [e]\<rparr>"

text \<open>\<open>if os.path.isfile(p): os.remove(p)\<close>\<close>

definition remove_if_file :: "string \<Rightarrow> world \<Rightarrow> world \<times> exn option" where
  "remove_if_file p w =
     (if isfile (files w) p
      then (case os_remove p (files w) of
              Inl e \<Rightarrow> (w, Some e)
            | Inr f \<Rightarrow> (w\<lparr>files := f\<rparr>, None))
      else (w, None))"

text \<open>Writing the members of an archive, in order.\<close>

fun write_members :: "(string \<times> bytes) list \<Rightarrow> fs \<Rightarrow> fs" where
  "write_members [] f = f"
| "write_members ((n, b) # ms) f = write_members ms (f(n \<mapsto> b))"

text \<open>
  \<open>with zipfile.ZipFile(zip_file, 'r') as zip_ref: zip_ref.extractall()\<close>: the new
  directory and the exception raised, if any.
\<close>

definition extractall :: "env \<Rightarrow> string \<Rightarrow> fs \<Rightarrow> fs \<times> exn option" where
  "extractall E zip_file f =
     (case read_file f zip_file of
        Inl e \<Rightarrow> (f, Some e)
      | Inr b \<Rightarrow> (write_members (fst (unzip E b)) f, snd (unzip E b)))"

subsection \<open>Starting the downloads\<close>

text \<open>
  The body of \<open>download\<close>, run by one thread: the file is written when the request
  answers and the file can be opened. The model writes it when the thread is started;
  the controlling flow reads a file only after it has seen the thread of that name dead.
  A thread whose dict entry was overwritten by a later entry of the same name can in fact
  write after the job of that name ran; the model does not follow that race.
\<close>

definition download :: "env \<Rightarrow> string \<Rightarrow> string \<Rightarrow> fs \<Rightarrow> fs" where
  "download E link filelocation f =
     (case fetch E link of
        None \<Rightarrow> f
      | Some b \<Rightarrow> if filelocation = [] then f else f(filelocation \<mapsto> b))"

text \<open>
  \<open>downloads\<close> is a Python dict from archive name to thread, in insertion order;
  assigning to a key that is present keeps its place and replaces its thread. A thread
  is identified by the position of its URL in the catalog.
\<close>

type_synonym downloads = "(string \<times> nat) list"

record boot =
  disk :: world
  table :: downloads
  threads :: "nat list"

fun init_downloads :: "env \<Rightarrow> string list \<Rightarrow> nat \<Rightarrow> boot \<Rightarrow> boot" where
  "init_downloads E [] i s = s"
| "init_downloads E (url # urls) i s =
     (let zip_filename = basename url;
          w1 = put (Print (''Initiating download \"'' @ url @ ''\"'')) (disk s);
          w2 = w1\<lparr>files := download E url zip_filename (files w1)\<rparr>
      in init_downloads E urls (Suc i)
           \<lparr>disk = w2, table = AList.update zip_filename i (table s), threads = threads s @ [i]\<rparr>)"

subsection \<open>The completion loop\<close>

text \<open>
  \<open>for file, thread in downloads.items(): if not thread.is_alive(): ... break\<close>:
  the first entry whose thread is dead.
\<close>

fun first_done :: "(nat \<Rightarrow> bool) \<Rightarrow> downloads \<Rightarrow> (string \<times> nat) option" where
  "first_done dead [] = None"
| "first_done dead ((file, thread) # rest) =
     (if dead thread then Some (file, thread) else first_done dead rest)"

text \<open>
  \<open>while not zip_file: time.sleep(1); ...\<close>. \<open>dead t i\<close> says that thread \<open>i\<close> is
  no longer alive after \<open>t\<close> sleeps. An empty name is falsy in Python, so finding an
  entry with the empty name does not leave the loop. The loop may never end: \<open>polls\<close>
  bounds the number of sleeps, and \<open>None\<close> is "still waiting".
\<close>

fun await_done :: "nat \<Rightarrow> (nat \<Rightarrow> nat \<Rightarrow> bool) \<Rightarrow> nat \<Rightarrow> downloads \<Rightarrow> (string \<times> nat \<times> nat) option" where
  "await_done 0 dead t d = None"
| "await_done (Suc polls) dead t d =
     (case first_done (dead (Suc t)) d of
        None \<Rightarrow> await_done polls dead (Suc t) d
      | Some (file, thread) \<Rightarrow>
          if file \<noteq> [] then Some (file, thread, Suc t) else await_done polls dead (Suc t) d)"

datatype status = Finished | Waiting | Crashed exn

record run =
  final :: world
  started :: "nat list"
  yielded :: "(string \<times> nat \<times> nat) list"
  outcome :: status

text \<open>
  \<open>while downloads: ...\<close>. Each round waits for one unit, removes its entry and hands
  its name to \<open>process\<close>, the rest of the loop body, which returns the new world and the
  exception that escaped it, if any. \<open>rounds\<close> bounds the number of rounds, \<open>polls\<close>
  the sleeps of one round. \<open>yielded\<close> records each unit the loop took out: its name, its
  thread and the number of sleeps so far.
\<close>

fun completion_loop ::
  "(string \<Rightarrow> world \<Rightarrow> world \<times> exn option) \<Rightarrow> (nat \<Rightarrow> nat \<Rightarrow> bool) \<Rightarrow> nat \<Rightarrow> nat \<Rightarrow>
     nat \<Rightarrow> downloads \<Rightarrow> world \<Rightarrow> (string \<times> nat \<times> nat) list \<Rightarrow>
     world \<times> (string \<times> nat \<times> nat) list \<times> status" where
  "completion_loop process dead polls 0 t d w acc =
     (if d = [] then (w, acc, Finished) else (w, acc, Waiting))"
| "completion_loop process dead polls (Suc rounds) t d w acc =
     (if d = [] then (w, acc, Finished)
      else case await_done polls dead t d of
        None \<Rightarrow> (w, acc, Waiting)
      | Some (zip_file, thread, t') \<Rightarrow>
          (case process zip_file w of
             (w', Some e) \<Rightarrow> (w', acc @ [(zip_file, thread, t')], Crashed e)
           | (w', None) \<Rightarrow>
               completion_loop process dead polls rounds t' (AList.delete zip_file d) w'
                 (acc @ [(zip_file, thread, t')])))"

definition pipeline ::
  "env \<Rightarrow> (string \<Rightarrow> world \<Rightarrow> world \<times> exn option) \<Rightarrow> (nat \<Rightarrow> nat \<Rightarrow> bool) \<Rightarrow> nat \<Rightarrow> nat \<Rightarrow>
     string list \<Rightarrow> world \<Rightarrow> run" where
  "pipeline E process dead polls rounds urls w =
     (let s = init_downloads E urls 0 \<lparr>disk = w, table = [], threads = []\<rparr>;
          r = completion_loop process dead polls rounds 0 (table s) (disk s) []
      in \<lparr>final = fst r, started = threads s, yielded = fst (snd r), outcome = snd (snd r)\<rparr>)"

subsection \<open>download_vdb_caches.py\<close>

text \<open>The \<open>try\<close> block of the loop body and its handler, which prints the exception.\<close>

definition cache_job :: "env \<Rightarrow> string \<Rightarrow> world \<Rightarrow> world \<times> exn option" where
  "cache_job E zip_file w =
     (let w1 = put (Print (''Extracting '' @ zip_file @ ''...'')) w in
      case extractall E zip_file (files w1) of
        (f, Some e) \<Rightarrow> (put (PrintExn e) (w1\<lparr>files := f\<rparr>), None)
      | (f, None) \<Rightarrow>
          (let w2 = put (Print (''Cleaning up \"'' @ zip_file @ ''\"...'')) (w1\<lparr>files := f\<rparr>) in
           case remove_if_file zip_file w2 of
             (w3, Some e) \<Rightarrow> (put (PrintExn e) w3, None)
           | (w3, None) \<Rightarrow> (w3, None)))"

definition download_vdb_caches ::
  "env \<Rightarrow> (nat \<Rightarrow> nat \<Rightarrow> bool) \<Rightarrow> nat \<Rightarrow> nat \<Rightarrow> string list \<Rightarrow> world \<Rightarrow> run" where
  "download_vdb_caches E = pipeline E (cache_job E)"

text \<open>The catalog, the same list in both scripts that download.\<close>

definition vdb_urls :: "string list" where
  "vdb_urls =
    [''https://artifacts.aswf.io/io/aswf/openvdb/models/armadillo.vdb/1.0.0/armadillo.vdb-1.0.0.zip'',
     ''https://artifacts.aswf.io/io/aswf/openvdb/models/buddha.vdb/1.0.0/buddha.vdb-1.0.0.zip'',
     ''https://artifacts.aswf.io/io/aswf/openvdb/models/armadillo.vdb/1.0.0/armadillo.vdb-1.0.0.zip'',
     ''https://artifacts.aswf.io/io/aswf/openvdb/models/buddha.vdb/1.0.0/buddha.vdb-1.0.0.zip'',
     ''https://artifacts.aswf.io/io/aswf/openvdb/models/bunny.vdb/1.0.0/bunny.vdb-1.0.0.zip'',
     ''https://artifacts.aswf.io/io/aswf/openvdb/models/bunny_cloud.vdb/1.0.0/bunny_cloud.vdb-1.0.0.zip'',
     ''https://artifacts.aswf.io/io/aswf/openvdb/models/crawler.vdb/1.0.0/crawler.vdb-1.0.0.zip'',
     ''https://artifacts.aswf.io/io/aswf/openvdb/models/cube.vdb/1.0.0/cube.vdb-1.0.0.zip'',
     ''https://artifacts.aswf.io/io/aswf/openvdb/models/dragon.vdb/1.0.0/dragon.vdb-1.0.0.zip'',
     ''https://artifacts.aswf.io/io/aswf/openvdb/models/emu.vdb/1.0.0/emu.vdb-1.0.0.zip'',
     ''https://artifacts.aswf.io/io/aswf/openvdb/models/explosion.vdb/1.0.0/explosion.vdb-1.0.0.zip'',
     ''https://artifacts.aswf.io/io/aswf/openvdb/models/fire.vdb/1.0.0/fire.vdb-1.0.0.zip'',
     ''https://artifacts.aswf.io/io/aswf/openvdb/models/icosahedron.vdb/1.0.0/icosahedron.vdb-1.0.0.zip'',
     ''https://artifacts.aswf.io/io/aswf/openvdb/models/iss.vdb/1.0.0/iss.vdb-1.0.0.zip'',
     ''https://artifacts.aswf.io/io/aswf/openvdb/models/smoke1.vdb/1.0.0/smoke1.vdb-1.0.0.zip'',
     ''https://artifacts.aswf.io/io/aswf/openvdb/models/smoke2.vdb/1.0.0/smoke2.vdb-1.0.0.zip'',
     ''https://artifacts.aswf.io/io/aswf/openvdb/models/space.vdb/1.0.0/space.vdb-1.0.0.zip'',
     ''https://artifacts.aswf.io/io/aswf/openvdb/models/sphere.vdb/1.0.0/sphere.vdb-1.0.0.zip'',
     ''https://artifacts.aswf.io/io/aswf/openvdb/models/torus.vdb/1.0.0/torus.vdb-1.0.0.zip'',
     ''https://artifacts.aswf.io/io/aswf/openvdb/models/torus_knot.vdb/1.0.0/torus_knot.vdb-1.0.0.zip'',
     ''https://artifacts.aswf.io/io/aswf/openvdb/models/utahteapot.vdb/1.0.0/utahteapot.vdb-1.0.0.zip'',
     ''https://artifacts.aswf.io/io/aswf/openvdb/models/venusstatue.vdb/1.0.0/venusstatue.vdb-1.0.0.zip'',
     ''https://artifacts.aswf.io/io/aswf/openvdb/models/boat_points.vdb/1.0.0/boat_points.vdb-1.0.0.zip'',
     ''https://artifacts.aswf.io/io/aswf/openvdb/models/bunny_points.vdb/1.0.0/bunny_points.vdb-1.0.0.zip'',
     ''https://artifacts.aswf.io/io/aswf/openvdb/models/sphere_points.vdb/1.0.0/sphere_points.vdb-1.0.0.zip'',
     ''https://artifacts.aswf.io/io/aswf/openvdb/models/waterfall_points.vdb/1.0.0/waterfall_points.vdb-1.0.0.zip'']"

subsection \<open>The round trip of one data file\<close>

text \<open>
  \<open>grids[0][0].name += '_output'\<close>, and the value of \<open>grids[0]\<close> afterwards, which
  is what \<open>vdb.write\<close> receives. Indexing an empty sequence raises \<open>IndexError\<close>,
  indexing a dict by \<open>0\<close> raises \<open>KeyError\<close>, indexing a grid raises \<open>TypeError\<close>.
\<close>

definition rename_first :: "item list \<Rightarrow> exn + grid list" where
  "rename_first grids =
     (case grids of
        [] \<Rightarrow> Inl IndexError
      | Meta m # others \<Rightarrow> Inl KeyError
      | Single g # others \<Rightarrow> Inl TypeError
      | Grids [] # others \<Rightarrow> Inl IndexError
      | Grids (g # rest) # others \<Rightarrow> Inr (g\<lparr>name := name g @ ''_output''\<rparr> # rest))"

text \<open>
  The size lines: both \<open>os.path.getsize\<close> calls, the three lines printed before the
  ratio, and \<open>src_size/float(dst_size)\<close>: \<open>float(dst_size)\<close> first, then the
  division.
\<close>

definition size_report :: "string \<Rightarrow> string \<Rightarrow> string \<Rightarrow> world \<Rightarrow> world \<times> exn option" where
  "size_report label src_file dst_file w =
     (case getsize (files w) src_file of
        Inl e \<Rightarrow> (w, Some e)
      | Inr src_size \<Rightarrow>
     (case getsize (files w) dst_file of
        Inl e \<Rightarrow> (w, Some e)
      | Inr dst_size \<Rightarrow>
          (let w1 = put (OutputSize dst_size) (put (InputSize src_size)
                      (put (Print (label @ '' read/write successful.'')) w))
           in case to_float dst_size of
                Inl e \<Rightarrow> (w1, Some e)
              | Inr y \<Rightarrow>
                  (case true_div src_size y of
                     Inl e \<Rightarrow> (w1, Some e)
                   | Inr ratio \<Rightarrow> (put (CompRatio ratio) w1, None)))))"

text \<open>\<open>vdb.readAll(path)\<close>: the library's answer on the contents of an existing file.\<close>

definition readAll_file :: "env \<Rightarrow> fs \<Rightarrow> string \<Rightarrow> exn + item list" where
  "readAll_file E f path =
     (case read_file f path of Inl e \<Rightarrow> Inl IoError | Inr b \<Rightarrow> readAll E b)"

text \<open>
  From \<open>grids = vdb.readAll(src_file)\<close> to \<open>compressed = vdb.readAll(dst_file)\<close>:
  the read, the multiplicity check, the renaming, the write and the second read. The result
  is the world where the statements stopped and the exception that stopped them, if any.
\<close>

definition read_write :: "env \<Rightarrow> string \<Rightarrow> string \<Rightarrow> world \<Rightarrow> world \<times> exn option" where
  "read_write E src_file dst_file w =
     (case readAll_file E (files w) src_file of
        Inl e \<Rightarrow> (w, Some e)
      | Inr grids \<Rightarrow>
          if length grids > 2
          then (put (PrintGrids grids) w,
                Some (RuntimeError (''Multiple grids in file \"'' @ src_file @ ''\", refusing to read.'')))
          else
     (case rename_first grids of
        Inl e \<Rightarrow> (w, Some e)
      | Inr renamed \<Rightarrow>
     (case vdb_write E renamed of
        Inl e \<Rightarrow> (w, Some e)
      | Inr written \<Rightarrow>
          (let w1 = w\<lparr>files := (files w)(dst_file \<mapsto> written)\<rparr> in
           case readAll_file E (files w1) dst_file of
             Inl e \<Rightarrow> (w1, Some e)
           | Inr compressed \<Rightarrow> (w1, None)))))"

text \<open>
  The statements of the \<open>try\<close> block that both read/write scripts share: those above,
  then the size lines.
\<close>

definition round_trip :: "env \<Rightarrow> string \<Rightarrow> string \<Rightarrow> string \<Rightarrow> world \<Rightarrow> world \<times> exn option" where
  "round_trip E label src_file dst_file w =
     (case read_write E src_file dst_file w of
        (w1, Some e) \<Rightarrow> (w1, Some e)
      | (w1, None) \<Rightarrow> size_report label src_file dst_file w1)"

subsection \<open>The comparison with vdb_ax\<close>

definition fingerprint :: "env \<Rightarrow> fs \<Rightarrow> string \<Rightarrow> exn + string" where
  "fingerprint E f path =
     (case read_file f path of
        Inl e \<Rightarrow> Inl IoError
      | Inr b \<Rightarrow>
          (case readAllGridMetadata E b of
             Inl e \<Rightarrow> Inl e
           | Inr [] \<Rightarrow> Inl IndexError
           | Inr (g # rest) \<Rightarrow> Inr (valueTypeName g @ ''@'' @ name g)))"

definition ax_code :: "string \<Rightarrow> string \<Rightarrow> string" where
  "ax_code a b =
     [CHR 0x0A] @ ''        if ('' @ a @ '' != '' @ b @ '') print('' @ a @ ''-'' @ b @ '');''
       @ [CHR 0x0A] @ ''    ''"

text \<open>
  The body of \<open>diff\<close> between its first line and \<open>if out\<close>: the two fingerprints,
  the assertion, and the subprocess. The result is the standard output of the tool, or the
  exception that leaves \<open>diff\<close>.
\<close>

definition run_ax :: "env \<Rightarrow> fs \<Rightarrow> string \<Rightarrow> string \<Rightarrow> exn + string" where
  "run_ax E f src_file dst_file =
     (case fingerprint E f src_file of
        Inl e \<Rightarrow> Inl e
      | Inr a \<Rightarrow>
     (case fingerprint E f dst_file of
        Inl e \<Rightarrow> Inl e
      | Inr b \<Rightarrow>
          if a = b then Inl AssertionError
          else vdb_ax E (the (f src_file)) (the (f dst_file)) (ax_code a b)))"

definition differ_line :: "string \<Rightarrow> string \<Rightarrow> event" where
  "differ_line src_file dst_file =
     Print (''VDBs from \"'' @ src_file @ ''\" and \"'' @ dst_file @ ''\" differ.'')"

definition diff :: "env \<Rightarrow> string \<Rightarrow> string \<Rightarrow> world \<Rightarrow> world \<times> exn option" where
  "diff E src_file dst_file w =
     (let w1 = put (Print ''Comparing grids with AX...'') w in
      case run_ax E (files w1) src_file dst_file of
        Inl e \<Rightarrow> (w1, Some e)
      | Inr out \<Rightarrow>
          if out \<noteq> [] then (put (differ_line src_file dst_file) w1, None) else (w1, None))"

subsection \<open>read_write_test_compression.py\<close>

definition vdb_aliases_test :: "string \<rightharpoonup> string" where
  "vdb_aliases_test =
     map_of [(''torus_knot.vdb-1.0.0.zip'', ''torus_knot_helix''),
             (''smoke1.vdb-1.0.0.zip'', ''smoke'')]"

definition archive_name :: "string \<Rightarrow> string" where
  "archive_name zip_file = get_or vdb_aliases_test zip_file (split_head ''.vdb'' zip_file)"

text \<open>
  The \<open>try\<close> block and its handler. \<open>src_file\<close> and \<open>dst_file\<close> are empty
  before the block and are assigned after the extraction; the result carries their values
  after the block.
\<close>

record job =
  src :: string
  dst :: string
  after :: world

definition test_try :: "env \<Rightarrow> string \<Rightarrow> string \<Rightarrow> world \<Rightarrow> job" where
  "test_try E nm zip_file w =
     (let w1 = put (Print (''Extracting '' @ zip_file @ ''...'')) w in
      case extractall E zip_file (files w1) of
        (f, Some e) \<Rightarrow> \<lparr>src = [], dst = [], after = put (PrintExn e) (w1\<lparr>files := f\<rparr>)\<rparr>
      | (f, None) \<Rightarrow>
          (let src_file = nm @ ''.vdb'';
               dst_file = nm @ ''_blosc_compressed.vdb''
           in case round_trip E zip_file src_file dst_file (w1\<lparr>files := f\<rparr>) of
                (w2, Some e) \<Rightarrow> \<lparr>src = src_file, dst = dst_file, after = put (PrintExn e) w2\<rparr>
              | (w2, None) \<Rightarrow> \<lparr>src = src_file, dst = dst_file, after = w2\<rparr>))"

text \<open>\<open>if diff_with_ax: if os.path.isfile(src_file) and os.path.isfile(dst_file): diff(...)\<close>\<close>

definition test_differ :: "env \<Rightarrow> bool \<Rightarrow> string \<Rightarrow> string \<Rightarrow> world \<Rightarrow> world \<times> exn option" where
  "test_differ E diff_with_ax src_file dst_file w =
     (if diff_with_ax
      then (if isfile (files w) src_file \<and> isfile (files w) dst_file
            then diff E src_file dst_file w else (w, None))
      else (w, None))"

text \<open>The three guarded removals that end the loop body.\<close>

definition test_cleanup :: "string \<Rightarrow> string \<Rightarrow> string \<Rightarrow> string \<Rightarrow> world \<Rightarrow> world \<times> exn option" where
  "test_cleanup nm src_file dst_file zip_file w =
     (let w1 = put (Print (''Cleaning up \"'' @ nm @ ''\" files...'')) w in
      case remove_if_file src_file w1 of
        (w2, Some e) \<Rightarrow> (w2, Some e)
      | (w2, None) \<Rightarrow>
     (case remove_if_file dst_file w2 of
        (w3, Some e) \<Rightarrow> (w3, Some e)
      | (w3, None) \<Rightarrow> remove_if_file zip_file w3))"

text \<open>The loop body after \<open>del downloads[zip_file]\<close>, with the two lines printed before it.\<close>

definition test_job :: "env \<Rightarrow> bool \<Rightarrow> string \<Rightarrow> world \<Rightarrow> world \<times> exn option" where
  "test_job E diff_with_ax zip_file w =
     (let w0 = put (Print (''Processing \"'' @ zip_file @ ''\"''))
                 (put (Print ''-----------------------------------------'') w);
          nm = archive_name zip_file;
          j = test_try E nm zip_file w0
      in case test_differ E diff_with_ax (src j) (dst j) (after j) of
           (w1, Some e) \<Rightarrow> (w1, Some e)
         | (w1, None) \<Rightarrow> test_cleanup nm (src j) (dst j) zip_file w1)"

text \<open>
  \<open>diff_with_ax\<close> is \<open>hasattr(vdb, 'ax')\<close>, fixed when the script starts; the script
  prints which it is before anything else.
\<close>

definition read_write_test_compression ::
  "env \<Rightarrow> bool \<Rightarrow> (nat \<Rightarrow> nat \<Rightarrow> bool) \<Rightarrow> nat \<Rightarrow> nat \<Rightarrow> string list \<Rightarrow> world \<Rightarrow> run" where
  "read_write_test_compression E diff_with_ax dead polls rounds urls w =
     pipeline E (test_job E diff_with_ax) dead polls rounds urls
       (put (Print (if diff_with_ax then ''ax enabled'' else ''ax disabled'')) w)"

subsection \<open>read_write_blosc_compression.py\<close>

definition vdb_aliases_blosc :: "string \<rightharpoonup> string" where
  "vdb_aliases_blosc =
     map_of [(''torus_knot.vdb'', ''torus_knot_helix''),
             (''smoke1.vdb'', ''smoke'')]"

definition data_name :: "string \<Rightarrow> string" where
  "data_name src_file =
     get_or vdb_aliases_blosc (remove_all ''_blosc'' src_file) (split_head ''.vdb'' src_file)"

definition blosc_cleanup :: "string \<Rightarrow> string \<Rightarrow> string \<Rightarrow> world \<Rightarrow> world \<times> exn option" where
  "blosc_cleanup nm src_file dst_file w =
     (let w1 = put (Print (''Cleaning up \"'' @ nm @ ''\" files...'')) w in
      case remove_if_file src_file w1 of
        (w2, Some e) \<Rightarrow> (w2, Some e)
      | (w2, None) \<Rightarrow> remove_if_file dst_file w2)"

definition blosc_try :: "env \<Rightarrow> string \<Rightarrow> string \<Rightarrow> world \<Rightarrow> world" where
  "blosc_try E src_file dst_file w =
     (case round_trip E src_file src_file dst_file w of
        (w1, Some e) \<Rightarrow> put (PrintExn e) w1
      | (w1, None) \<Rightarrow> w1)"

definition blosc_differ :: "env \<Rightarrow> string \<Rightarrow> string \<Rightarrow> world \<Rightarrow> world \<times> exn option" where
  "blosc_differ E src_file dst_file w =
     (if isfile (files w) src_file \<and> isfile (files w) dst_file
      then diff E src_file dst_file w else (w, None))"

definition blosc_job :: "env \<Rightarrow> string \<Rightarrow> world \<Rightarrow> world \<times> exn option" where
  "blosc_job E src_file w =
     (let w0 = put (Print (''Processing \"'' @ src_file @ ''\"''))
                 (put (Print ''-----------------------------------------'') w);
          nm = data_name src_file;
          dst_file = nm @ ''_output.vdb'';
          w1 = blosc_try E src_file dst_file w0
      in case blosc_differ E src_file dst_file w1 of
           (w2, Some e) \<Rightarrow> (w2, Some e)
         | (w2, None) \<Rightarrow> blosc_cleanup nm src_file dst_file w2)"

text \<open>\<open>for src_file in vdbs\<close>: an exception that leaves a job ends the script.\<close>

fun blosc_loop :: "env \<Rightarrow> string list \<Rightarrow> world \<Rightarrow> world \<times> exn option" where
  "blosc_loop E [] w = (w, None)"
| "blosc_loop E (src_file # vdbs) w =
     (case blosc_job E src_file w of
        (w1, Some e) \<Rightarrow> (w1, Some e)
      | (w1, None) \<Rightarrow> blosc_loop E vdbs w1)"

text \<open>
  \<open>glob.glob('*.vdb')\<close> over the directory listing \<open>listing\<close>: the names that end
  in \<open>.vdb\<close> and do not start with a dot.
\<close>

definition glob_vdb :: "fs \<Rightarrow> string list \<Rightarrow> string list" where
  "glob_vdb f listing =
     filter (\<lambda>n. isfile f n \<and> suffix ''.vdb'' n \<and> \<not> prefix ''.'' n) listing"

definition read_write_blosc_compression :: "env \<Rightarrow> string list \<Rightarrow> world \<Rightarrow> world \<times> exn option" where
  "read_write_blosc_compression E listing w =
     (let vdbs = glob_vdb (files w) listing in
      if length vdbs > 0 then blosc_loop E vdbs w else (w, Some AssertionError))"

subsection \<open>Invariants of the completion loop\<close>

text \<open>
  What holds of the dict and of the units taken out so far: names and threads are
  distinct on both sides, and no unit taken out is still in the dict.
\<close>

definition tracked :: "downloads \<Rightarrow> (string \<times> nat \<times> nat) list \<Rightarrow> bool" where
  "tracked d acc \<longleftrightarrow>
     distinct (map fst d) \<and> distinct (map snd d) \<and>
     distinct (map fst acc) \<and> distinct (map (\<lambda>u. fst (snd u)) acc) \<and>
     fst ` set acc \<inter> fst ` set d = {} \<and> (\<lambda>u. fst (snd u)) ` set acc \<inter> snd ` set d = {}"

text \<open>No name and no thread twice, and every thread dead at the sleep count recorded with it.\<close>

definition sound :: "(nat \<Rightarrow> nat \<Rightarrow> bool) \<Rightarrow> (string \<times> nat \<times> nat) list \<Rightarrow> bool" where
  "sound dead acc \<longleftrightarrow>
     distinct (map fst acc) \<and> distinct (map (\<lambda>u. fst (snd u)) acc) \<and>
     (\<forall>u\<in>set acc. dead (snd (snd u)) (fst (snd u)))"

text \<open>The count of threads started, the threads taken out in order, and how the run ended.\<close>

definition tally :: "run \<Rightarrow> nat \<times> nat list \<times> status" where
  "tally r = (length (started r), map (\<lambda>u. fst (snd u)) (yielded r), outcome r)"

subsection \<open>Concrete collaborators\<close>

text \<open>
  Instances of the collaborators on which the scripts can be run. \<open>offline\<close> is a
  machine without network: every request fails and nothing can be read. \<open>toy\<close> stores
  a list of grids as their names, each followed by a semicolon; an archive is \<open>PK\<close>
  followed by the contents of its one member, \<open>bunny.vdb\<close>.
\<close>

definition offline :: env where
  "offline =
     \<lparr>fetch = (\<lambda>u. None),
      unzip = (\<lambda>b. ([], Some BadZipFile)),
      readAll = (\<lambda>b. Inl IoError),
      vdb_write = (\<lambda>gs. Inl IoError),
      readAllGridMetadata = (\<lambda>b. Inl IoError),
      vdb_ax = (\<lambda>a b code. Inl OSError)\<rparr>"

definition empty_dir :: world where
  "empty_dir = \<lparr>files = Map.empty, console = []\<rparr>"

fun names_of :: "string \<Rightarrow> string \<Rightarrow> string list" where
  "names_of cur [] = []"
| "names_of cur (c # cs) =
     (if c = CHR '';'' then rev cur # names_of [] cs else names_of (c # cur) cs)"

definition toy_grids :: "bytes \<Rightarrow> grid list" where
  "toy_grids b = map (\<lambda>n. \<lparr>name = n, valueTypeName = ''float''\<rparr>) (names_of [] b)"

definition toy :: env where
  "toy =
     \<lparr>fetch = (\<lambda>u. Some ''PKdensity;''),
      unzip = (\<lambda>b. if prefix ''PK'' b then ([(''bunny.vdb'', drop 2 b)], None)
                   else ([], Some BadZipFile)),
      readAll = (\<lambda>b. if toy_grids b = [] then Inl IoError else Inr [Grids (toy_grids b), Meta []]),
      vdb_write = (\<lambda>gs. Inr (concat (map (\<lambda>g. name g @ '';'') gs))),
      readAllGridMetadata = (\<lambda>b. if toy_grids b = [] then Inl IoError else Inr (toy_grids b)),
      vdb_ax = (\<lambda>a b code. Inr [])\<rparr>"

definition bunny_url :: string where
  "bunny_url = ''https://artifacts.aswf.io/io/aswf/openvdb/models/bunny.vdb/1.0.0/bunny.vdb-1.0.0.zip''"

text \<open>
  Two working directories: one where the archive of the bunny model has arrived, one
  where the file of that name is not an archive.
\<close>

definition bunny_zip :: string where
  "bunny_zip = ''bunny.vdb-1.0.0.zip''"


definition fetched_dir :: world where
  "fetched_dir = \<lparr>files = [bunny_zip \<mapsto> ''PKdensity;''], console = []\<rparr>"

text \<open>Data files of one, two and three grids, as \<open>toy\<close> stores them.\<close>

definition density :: grid where
  "density = \<lparr>name = ''density'', valueTypeName = ''float''\<rparr>"

definition temperature :: grid where
  "temperature = \<lparr>name = ''temperature'', valueTypeName = ''float''\<rparr>"

definition velocity :: grid where
  "velocity = \<lparr>name = ''velocity'', valueTypeName = ''float''\<rparr>"

definition one_grid_dir :: world where
  "one_grid_dir = \<lparr>files = [''bunny.vdb'' \<mapsto> ''density;''], console = []\<rparr>"

definition two_grid_dir :: world where
  "two_grid_dir = \<lparr>files = [''fire.vdb'' \<mapsto> ''density;temperature;''], console = []\<rparr>"

definition three_grid_dir :: world where
  "three_grid_dir =
     \<lparr>files = [''explosion.vdb'' \<mapsto> ''density;temperature;velocity;''], console = []\<rparr>"

text \<open>
  A directory with both files of a job present, for the comparison, and \<open>noisy\<close>, whose
  \<open>vdb_ax\<close> prints.
\<close>

definition compared_dir :: world where
  "compared_dir =
     \<lparr>files = [''bunny.vdb'' \<mapsto> ''density;'', ''bunny_output.vdb'' \<mapsto> ''density_output;''],
      console = []\<rparr>"

definition noisy :: env where
  "noisy = toy\<lparr>vdb_ax := (\<lambda>a b code. Inr ''0.5'')\<rparr>"

text \<open>The names of the grids that \<open>readAll\<close> finds in a file, in order.\<close>

definition stored_names :: "env \<Rightarrow> fs \<Rightarrow> string \<Rightarrow> string list" where
  "stored_names E f path =
     (case readAll_file E f path of
        Inr (Grids gs # others) \<Rightarrow> map name gs
      | _ \<Rightarrow> [])"

section \<open>Properties\<close>

subsection \<open>The completion loop\<close>

lemma first_done_mem:
  "first_done p d = Some (file, thread) \<Longrightarrow> (file, thread) \<in> set d \<and> p thread"
  by (induction p d rule: first_done.induct) (auto split: if_splits)

lemma await_done_mem:
  "await_done polls dead t d = Some (file, thread, t') \<Longrightarrow> (file, thread) \<in> set d \<and> dead t' thread \<and> file \<noteq> []"
proof (induction polls arbitrary: t)
  case 0
  then show ?case by simp
next
  case (Suc polls)
  show ?case
  proof (cases "first_done (dead (Suc t)) d")
    case None
    with Suc show ?thesis by simp
  next
    case (Some u)
    obtain f th where u: "u = (f, th)" by (cases u)
    show ?thesis
    proof (cases "f = []")
      case True
      with Suc Some u show ?thesis by simp
    next
      case False
      with Suc.prems Some u have "file = f" "thread = th" "t' = Suc t" by simp_all
      with first_done_mem[of "dead (Suc t)" d f th] Some u False show ?thesis by simp
    qed
  qed
qed

lemma update_values:
  "set (map snd (AList.update k v d)) \<subseteq> insert v (set (map snd d))"
  by (induction d) auto

lemma distinct_update_values:
  "distinct (map snd d) \<Longrightarrow> v \<notin> snd ` set d \<Longrightarrow> distinct (map snd (AList.update k v d))"
proof (induction d)
  case Nil
  then show ?case by simp
next
  case (Cons p ps)
  have "snd p \<notin> snd ` set (AList.update k v ps)"
    using update_values[of k v ps] Cons.prems by auto
  with Cons show ?case by auto
qed

lemma tracked_step:
  assumes "tracked d acc" "(file, thread) \<in> set d"
  shows "tracked (AList.delete file d) (acc @ [(file, thread, t)])"
proof -
  have sub: "set (AList.delete file d) \<subseteq> set d" by (auto simp: AList.delete_eq)
  have nin: "file \<notin> fst ` set (AList.delete file d)" by (rule AList.delete_notin_dom)
  have dv: "distinct (map snd (AList.delete file d))"
    using assms(1) unfolding tracked_def AList.delete_eq by (simp add: distinct_map_filter)
  have th: "thread \<notin> snd ` set (AList.delete file d)"
  proof
    assume "thread \<in> snd ` set (AList.delete file d)"
    then obtain k where k: "(k, thread) \<in> set (AList.delete file d)" by force
    then have "k \<noteq> file" by (auto simp: AList.delete_eq)
    moreover have "(k, thread) \<in> set d" using k sub by blast
    moreover have "inj_on snd (set d)" using assms(1) unfolding tracked_def by (simp add: distinct_map)
    ultimately show False using assms(2) unfolding inj_on_def by force
  qed
  have a: "file \<notin> fst ` set acc" "thread \<notin> (\<lambda>u. fst (snd u)) ` set acc"
    using assms unfolding tracked_def by force+
  have k1: "fst ` set acc \<inter> fst ` set (AList.delete file d) = {}"
    using assms(1) sub unfolding tracked_def by blast
  have k2: "(\<lambda>u. fst (snd u)) ` set acc \<inter> snd ` set (AList.delete file d) = {}"
    using assms(1) sub unfolding tracked_def by blast
  have d1: "distinct (map fst (AList.delete file d))"
    using assms(1) unfolding tracked_def by (simp add: AList.distinct_delete)
  have d3: "distinct (map fst (acc @ [(file, thread, t)]))"
    using assms(1) a unfolding tracked_def by simp
  have d4: "distinct (map (\<lambda>u. fst (snd u)) (acc @ [(file, thread, t)]))"
    using assms(1) a unfolding tracked_def by simp
  have k3: "fst ` set (acc @ [(file, thread, t)]) \<inter> fst ` set (AList.delete file d) = {}"
    using k1 nin by simp
  have k4: "(\<lambda>u. fst (snd u)) ` set (acc @ [(file, thread, t)]) \<inter> snd ` set (AList.delete file d) = {}"
    using k2 th by simp
  show ?thesis
    unfolding tracked_def using d1 dv d3 d4 k3 k4 by blast
qed


lemma completion_loop_sound:
  "tracked d acc \<Longrightarrow> sound dead acc \<Longrightarrow>
   sound dead (fst (snd (completion_loop process dead polls rounds t d w acc)))"
proof (induction rounds arbitrary: t d w acc)
  case 0
  then show ?case by simp
next
  case (Suc rounds)
  show ?case
  proof (cases "d = []")
    case True
    with Suc.prems show ?thesis by simp
  next
    case False
    show ?thesis
    proof (cases "await_done polls dead t d")
      case None
      with False Suc.prems show ?thesis by simp
    next
      case (Some u)
      obtain zf th t' where u: "u = (zf, th, t')" by (cases u)
      from await_done_mem[of polls dead t d zf th t'] Some u
      have mem: "(zf, th) \<in> set d" and dd: "dead t' th" by simp_all
      have tr: "tracked (AList.delete zf d) (acc @ [(zf, th, t')])"
        using tracked_step[OF Suc.prems(1) mem] .
      have so: "sound dead (acc @ [(zf, th, t')])"
        using tr Suc.prems(2) dd unfolding tracked_def sound_def by simp
      obtain w' x where p: "process zf w = (w', x)" by (cases "process zf w")
      show ?thesis
      proof (cases x)
        case None
        with False Some u p Suc.IH[OF tr so] show ?thesis by simp
      next
        case (Some e)
        with False \<open>await_done polls dead t d = Some u\<close> u p so show ?thesis by simp
      qed
    qed
  qed
qed

lemma init_downloads_table:
  "distinct (map fst (table s)) \<Longrightarrow> distinct (map snd (table s)) \<Longrightarrow>
   (\<forall>v\<in>snd ` set (table s). v < i) \<Longrightarrow>
   distinct (map fst (table (init_downloads E urls i s))) \<and>
   distinct (map snd (table (init_downloads E urls i s)))"
proof (induction urls arbitrary: i s)
  case Nil
  then show ?case by simp
next
  case (Cons url urls)
  let ?d = "AList.update (basename url) i (table s)"
  have 1: "distinct (map fst ?d)" using Cons.prems(1) by (rule AList.distinct_update)
  have 2: "distinct (map snd ?d)"
    using Cons.prems(2,3) by (intro distinct_update_values) auto
  have 3: "\<forall>v\<in>snd ` set ?d. v < Suc i"
    using update_values[of "basename url" i "table s"] Cons.prems(3) by fastforce
  show ?case
    using Cons.IH[of _ "Suc i", OF _ _ _] 1 2 3 by (simp add: Let_def)
qed

lemma init_downloads_threads:
  "threads (init_downloads E urls i s) = threads s @ [i ..< i + length urls]"
proof (induction urls arbitrary: i s)
  case Nil
  then show ?case by simp
next
  case (Cons url urls)
  have e: "[i ..< i + length (url # urls)] = i # [Suc i ..< Suc i + length urls]"
    by (subst upt_rec) simp
  have "threads (init_downloads E (url # urls) i s) = (threads s @ [i]) @ [Suc i ..< Suc i + length urls]"
    by (simp add: Let_def Cons.IH del: append_assoc)
  then show ?case unfolding e by simp
qed

lemma pipeline_sound: "sound dead (yielded (pipeline E process dead polls rounds urls w))"
proof -
  let ?s = "init_downloads E urls 0 \<lparr>disk = w, table = [], threads = []\<rparr>"
  have "distinct (map fst (table ?s)) \<and> distinct (map snd (table ?s))"
    by (rule init_downloads_table) simp_all
  then have "tracked (table ?s) []" by (simp add: tracked_def)
  moreover have "sound dead []" by (simp add: sound_def)
  ultimately show ?thesis
    unfolding pipeline_def Let_def by (simp add: completion_loop_sound)
qed

text \<open>
  C4. The completion loop never takes the same fetch unit out twice, by thread or by
  name, and every unit it takes out has a thread that was no longer alive at the check
  that found it. This holds of every run of the loop, finished, still waiting or stopped by
  an exception, whatever the loop body \<open>process\<close> does; \<open>download_vdb_caches\<close> and
  \<open>read_write_test_compression\<close> are the instances with their own loop bodies.
\<close>

theorem tracker_yields_each_dead_unit_once:
  "distinct (map (\<lambda>u. fst (snd u)) (yielded (pipeline E process dead polls rounds urls w))) \<and>
   distinct (map fst (yielded (pipeline E process dead polls rounds urls w))) \<and>
   (\<forall>u\<in>set (yielded (pipeline E process dead polls rounds urls w)).
      dead (snd (snd u)) (fst (snd u)))"
  using pipeline_sound[of dead E process polls rounds urls w] unfolding sound_def by blast

theorem tracker_yields_each_dead_unit_once_witness:
  "yielded (pipeline toy (cache_job toy) (\<lambda>t i. t \<ge> 2) 3 1 [bunny_url] empty_dir)
     = [(''bunny.vdb-1.0.0.zip'', 0, 2)] \<and>
   distinct (map (\<lambda>u. fst (snd u))
     (yielded (pipeline toy (cache_job toy) (\<lambda>t i. t \<ge> 2) 3 1 [bunny_url] empty_dir))) \<and>
   list_all (\<lambda>u. (\<lambda>t i. t \<ge> (2::nat)) (snd (snd u)) (fst (snd u)))
     (yielded (pipeline toy (cache_job toy) (\<lambda>t i. t \<ge> 2) 3 1 [bunny_url] empty_dir))"
proof -
  have y: "yielded (pipeline toy (cache_job toy) (\<lambda>t i. t \<ge> 2) 3 1 [bunny_url] empty_dir)
     = [(''bunny.vdb-1.0.0.zip'', 0, 2)]"
    by code_simp
  show ?thesis
    using y tracker_yields_each_dead_unit_once
      [of toy "cache_job toy" "\<lambda>t i. t \<ge> 2" 3 1 "[bunny_url]" empty_dir]
    unfolding list_all_iff by blast
qed

subsection \<open>Files and cleanup\<close>

lemma files_put [simp]: "files (put e w) = files w"
  by (simp add: put_def)

lemma console_put [simp]: "console (put e w) = console w @ [e]"
  by (simp add: put_def)

lemma remove_if_file_eq:
  "remove_if_file p w =
     (w\<lparr>files := (if isfile (files w) p then (files w)(p := None) else files w)\<rparr>, None)"
  by (simp add: remove_if_file_def os_remove_def)

lemma isfile_removed: "isfile (f(p := None)) q \<longleftrightarrow> q \<noteq> p \<and> isfile f q"
  by (auto simp: isfile_def)



lemma remove_if_file_gone [simp]: "\<not> isfile (files (fst (remove_if_file p w))) p"
  by (simp add: remove_if_file_eq isfile_removed)

lemma remove_if_file_stays_gone:
  "\<not> isfile (files w) q \<Longrightarrow> \<not> isfile (files (fst (remove_if_file p w))) q"
  by (simp add: remove_if_file_eq isfile_removed)

lemma remove_if_file_ok [simp]: "snd (remove_if_file p w) = None"
  by (simp add: remove_if_file_eq)

lemma remove_if_file_absent:
  "\<not> isfile (files w) p \<Longrightarrow> files (fst (remove_if_file p w)) = files w"
  by (simp add: remove_if_file_eq)

lemma test_cleanup_eq:
  "test_cleanup nm s d z w =
     remove_if_file z (fst (remove_if_file d (fst (remove_if_file s
       (put (Print (''Cleaning up \"'' @ nm @ ''\" files...'')) w)))))"
  by (simp add: test_cleanup_def Let_def remove_if_file_eq)

lemma blosc_cleanup_eq:
  "blosc_cleanup nm s d w =
     remove_if_file d (fst (remove_if_file s
       (put (Print (''Cleaning up \"'' @ nm @ ''\" files...'')) w)))"
  by (simp add: blosc_cleanup_def Let_def remove_if_file_eq)

lemma test_cleanup_gone:
  "snd (test_cleanup nm s d z w) = None"
  "\<not> isfile (files (fst (test_cleanup nm s d z w))) s"
  "\<not> isfile (files (fst (test_cleanup nm s d z w))) d"
  "\<not> isfile (files (fst (test_cleanup nm s d z w))) z"
  unfolding test_cleanup_eq
  by (simp_all add: remove_if_file_stays_gone)

lemma blosc_cleanup_gone:
  "snd (blosc_cleanup nm s d w) = None"
  "\<not> isfile (files (fst (blosc_cleanup nm s d w))) s"
  "\<not> isfile (files (fst (blosc_cleanup nm s d w))) d"
  unfolding blosc_cleanup_eq
  by (simp_all add: remove_if_file_stays_gone)

lemma test_cleanup_fixpoint:
  assumes "\<not> isfile (files w) s" "\<not> isfile (files w) d" "\<not> isfile (files w) z"
  shows "files (fst (test_cleanup nm s d z w)) = files w"
  unfolding test_cleanup_eq using assms
  by (simp add: remove_if_file_absent)

lemma blosc_cleanup_fixpoint:
  assumes "\<not> isfile (files w) s" "\<not> isfile (files w) d"
  shows "files (fst (blosc_cleanup nm s d w)) = files w"
  unfolding blosc_cleanup_eq using assms
  by (simp add: remove_if_file_absent)

lemma os_remove_missing: "\<not> isfile f p \<Longrightarrow> os_remove p f = Inl (FileNotFoundError p)"
  by (simp add: os_remove_def)

text \<open>
  C9. Cleanup is total and idempotent. \<open>os.remove\<close> raises on a missing file
  (\<open>os_remove_missing\<close>), and each removal of the cleanup is behind an
  \<open>os.path.isfile\<close> test: from any directory, with some, all or none of the job's files
  present, the cleanup of either read/write script raises nothing and leaves none of the files
  it names; run again on its own result it raises nothing and changes no file.
\<close>

theorem cleanup_total_idempotent:
  "snd (test_cleanup nm s d z w) = None \<and>
   \<not> isfile (files (fst (test_cleanup nm s d z w))) s \<and>
   \<not> isfile (files (fst (test_cleanup nm s d z w))) d \<and>
   \<not> isfile (files (fst (test_cleanup nm s d z w))) z \<and>
   snd (test_cleanup nm s d z (fst (test_cleanup nm s d z w))) = None \<and>
   files (fst (test_cleanup nm s d z (fst (test_cleanup nm s d z w))))
     = files (fst (test_cleanup nm s d z w)) \<and>
   snd (blosc_cleanup nm s d w) = None \<and>
   \<not> isfile (files (fst (blosc_cleanup nm s d w))) s \<and>
   \<not> isfile (files (fst (blosc_cleanup nm s d w))) d \<and>
   snd (blosc_cleanup nm s d (fst (blosc_cleanup nm s d w))) = None \<and>
   files (fst (blosc_cleanup nm s d (fst (blosc_cleanup nm s d w))))
     = files (fst (blosc_cleanup nm s d w))"
proof -
  have a: "files (fst (test_cleanup nm s d z (fst (test_cleanup nm s d z w))))
     = files (fst (test_cleanup nm s d z w))"
    by (rule test_cleanup_fixpoint) (rule test_cleanup_gone)+
  have b: "files (fst (blosc_cleanup nm s d (fst (blosc_cleanup nm s d w))))
     = files (fst (blosc_cleanup nm s d w))"
    by (rule blosc_cleanup_fixpoint) (rule blosc_cleanup_gone)+
  show ?thesis
    by (intro conjI a b test_cleanup_gone blosc_cleanup_gone)
qed

subsection \<open>What a job leaves in the working directory\<close>













subsection \<open>The round trip\<close>

text \<open>
  The multiplicity check compares the length of what \<open>vdb.readAll\<close> returned with 2:
  a result of more than two elements is refused, before anything is written.
\<close>

lemma size_report_files [simp]: "files (fst (size_report l s d w)) = files w"
  by (simp add: size_report_def Let_def split: sum.splits)

lemma rename_first_Inr:
  "rename_first grids = Inr renamed \<longleftrightarrow>
     (\<exists>g rest others. grids = Grids (g # rest) # others \<and>
        renamed = g\<lparr>name := name g @ ''_output''\<rparr> # rest)"
  by (auto simp: rename_first_def split: list.splits item.splits)

lemma multiplicity_check:
  "readAll_file E (files w) s = Inr grids \<Longrightarrow> length grids > 2 \<Longrightarrow>
   round_trip E l s d w =
     (put (PrintGrids grids) w,
      Some (RuntimeError (''Multiple grids in file \"'' @ s @ ''\", refusing to read.'')))"
  by (simp add: round_trip_def read_write_def)

text \<open>
  Were the \<open>readAll\<close> result a flat sequence of grids, \<open>grids[0][0]\<close> would index a
  grid: such a file is never written, whatever the number of its grids.
\<close>

lemma flat_result_never_written:
  "readAll_file E (files w) s = Inr (Single g # others) \<Longrightarrow>
   files (fst (round_trip E l s d w)) = files w \<and> snd (round_trip E l s d w) \<noteq> None"
  by (simp add: round_trip_def read_write_def rename_first_def)

text \<open>
  With the shape the indexing presupposes, a first element that is a non-empty list of
  grids and at most one element after it, the check passes whatever the number of grids:
  the first grid is renamed, the whole list is written, and the statements end as the
  second read ends.
\<close>

lemma read_write_accepts:
  assumes "readAll_file E (files w) s = Inr (Grids (g # rest) # others)"
    and "length others \<le> 1"
    and "vdb_write E (g\<lparr>name := name g @ ''_output''\<rparr> # rest) = Inr written"
  shows "read_write E s d w =
           (w\<lparr>files := (files w)(d \<mapsto> written)\<rparr>,
            case readAll_file E ((files w)(d \<mapsto> written)) d of
              Inl e \<Rightarrow> Some e
            | Inr compressed \<Rightarrow> None)"
  using assms
  by (simp add: read_write_def rename_first_def Let_def split: sum.splits)

text \<open>
  C5 at a data file of three grids. \<open>readAll\<close> returns the list of the three grids and
  the file metadata, a sequence of length 2, so the check \<open>len(grids) > 2\<close> lets the file
  pass: no exception is raised, the first grid is renamed and all three grids are written
  to the output file.
\<close>

theorem three_grids_accepted:
  "readAll_file toy (files three_grid_dir) ''explosion.vdb''
     = Inr [Grids [density, temperature, velocity], Meta []] \<and>
   snd (round_trip toy ''explosion.vdb'' ''explosion.vdb'' ''explosion_output.vdb'' three_grid_dir) = None \<and>
   files (fst (round_trip toy ''explosion.vdb'' ''explosion.vdb'' ''explosion_output.vdb'' three_grid_dir))
     ''explosion_output.vdb'' = Some ''density_output;temperature;velocity;'' \<and>
   readAll toy ''density_output;temperature;velocity;''
     = Inr [Grids [density\<lparr>name := ''density_output''\<rparr>, temperature, velocity], Meta []]"
  by code_simp

text \<open>
  C7 at a data file of two grids. Only \<open>grids[0][0]\<close> is renamed, and the whole of
  \<open>grids[0]\<close> is written: the second unit is stored in the output file under the name
  it has in the input file.
\<close>

theorem second_unit_keeps_its_name:
  "stored_names toy (files two_grid_dir) ''fire.vdb'' = [''density'', ''temperature''] \<and>
   stored_names toy
     (files (fst (round_trip toy ''fire.vdb'' ''fire.vdb'' ''fire_output.vdb'' two_grid_dir)))
     ''fire_output.vdb'' = [''density_output'', ''temperature'']"
  by code_simp

text \<open>
  C10 at a data file of two grids: the file is accepted, and the output file holds both
  grids, not the first only.
\<close>

theorem second_grid_is_written:
  "readAll_file toy (files two_grid_dir) ''fire.vdb'' = Inr [Grids [density, temperature], Meta []] \<and>
   snd (round_trip toy ''fire.vdb'' ''fire.vdb'' ''fire_output.vdb'' two_grid_dir) = None \<and>
   files (fst (round_trip toy ''fire.vdb'' ''fire.vdb'' ''fire_output.vdb'' two_grid_dir))
     ''fire_output.vdb'' = Some ''density_output;temperature;'' \<and>
   readAll toy ''density_output;temperature;''
     = Inr [Grids [density\<lparr>name := ''density_output''\<rparr>, temperature], Meta []]"
  by code_simp

subsection \<open>The ratio\<close>

lemma round_even_bounds:
  "of_int (round_even r) \<le> r + 1 / 2 \<and> r - 1 / 2 \<le> of_int (round_even r)"
  unfolding round_even_def Let_def
  by (auto; linarith)

lemma expo_le:
  assumes "0 < x"
  shows "2 powi (expo x) \<le> x"
proof -
  obtain p q where pq: "quotient_of x = (p, q)" by (cases "quotient_of x")
  have q: "0 < q" using quotient_of_denom_pos[OF pq] .
  have x: "x = of_int p / of_int q" using quotient_of_div[OF pq] .
  have p: "0 < p" using assms q x by (simp add: zero_less_divide_iff)
  let ?e = "bitlen p - bitlen q"
  have bp: "(2::rat) ^ nat (bitlen p - 1) \<le> of_int p"
    using bitlen_bounds[OF p] by (metis of_int_le_iff of_int_numeral of_int_power)
  have bq: "of_int q \<le> (2::rat) ^ nat (bitlen q)"
    using bitlen_bounds[OF q] by (metis less_imp_le of_int_le_iff of_int_numeral of_int_power)
  have p1: "1 \<le> bitlen p" using p bitlen_eq_zero_iff[of p] bitlen_nonneg[of p] by linarith
  have "(2::rat) powi (?e - 1) = 2 powi ((bitlen p - 1) - bitlen q)"
    by (simp add: algebra_simps)
  also have "\<dots> = 2 powi (bitlen p - 1) / 2 powi (bitlen q)"
    by (rule power_int_diff) simp
  also have "\<dots> = 2 ^ nat (bitlen p - 1) / 2 ^ nat (bitlen q)"
    using p1 bitlen_nonneg[of q] by (simp add: power_int_nonneg_exp)
  also have "\<dots> \<le> of_int p / of_int q"
    using bp bq q p by (intro frac_le) auto
  finally have low: "(2::rat) powi (?e - 1) \<le> x" using x by simp
  show ?thesis
    using low by (simp add: expo_def pq Let_def)
qed

text \<open>In the normal range rounding gives a double, within a factor of two of its argument.\<close>

lemma round_double_normal:
  assumes lo: "2 powi (- 1022) \<le> x" and hi: "x \<le> 2 powi 1022"
  shows "\<exists>v. round_double x = Fin v \<and> x / 2 \<le> v \<and> v \<le> 2 * x"
proof -
  have "(0::rat) < 2 powi (- 1022)" by simp
  with lo have pos: "0 < x" by linarith
  define m where "m = max (expo x) (- 1022)"
  define u :: rat where "u = 2 powi (m - 52)"
  define k :: rat where "k = of_int (round_even (x / u))"
  have m: "(2::rat) powi m \<le> x" using expo_le[OF pos] lo by (simp add: m_def max_def)
  have "u = 2 powi m / 2 powi 52" unfolding u_def by (rule power_int_diff) simp
  then have u: "u = 2 powi m / 2 ^ 52" by simp
  have upos: "0 < u" by (simp add: u_def)
  have ux: "u \<le> x / 2 ^ 52" unfolding u using m by (simp add: divide_right_mono)
  have "x / 2 ^ 52 \<le> x" using pos by (simp add: field_simps)
  with ux have ux1: "u \<le> x" by linarith
  have ru: "x / u * u = x" using upos by simp
  have k: "k \<le> x / u + 1 / 2" "x / u - 1 / 2 \<le> k"
    using round_even_bounds[of "x / u"] by (simp_all add: k_def)
  have "k * u \<le> (x / u + 1 / 2) * u" using k(1) upos by (simp add: mult_right_mono)
  also have "\<dots> = x + u / 2" using ru by (simp add: distrib_right)
  finally have v1: "k * u \<le> x + u / 2" .
  have "(x / u - 1 / 2) * u \<le> k * u" using k(2) upos by (simp add: mult_right_mono)
  moreover have "(x / u - 1 / 2) * u = x - u / 2" using ru by (simp add: left_diff_distrib)
  ultimately have v2: "x - u / 2 \<le> k * u" by simp
  have a: "x / 2 \<le> k * u" using v2 ux1 by linarith
  have b: "k * u \<le> 2 * x" using v1 ux1 pos by linarith
  have e: "expo x \<le> 1022"
  proof (rule ccontr)
    assume "\<not> expo x \<le> 1022"
    then have "(2::rat) powi 1022 < 2 powi (expo x)"
      by (intro power_int_strict_increasing) simp_all
    with expo_le[OF pos] hi show False by linarith
  qed
  then have "m \<le> 1022" by (simp add: m_def)
  then have c: "\<not> (1023 < m \<or> (m = 1023 \<and> 2 ^ 53 \<le> round_even (x / u)))"
    by linarith
  have "round_double x = Fin (k * u)"
    using pos c by (simp add: round_double_def Let_def k_def u_def m_def)
  with a b show ?thesis by simp
qed

lemma to_float_size:
  assumes "0 < n" and "n < 2 ^ 63"
  shows "\<exists>x. to_float n = Inr x \<and> 1 / 2 \<le> x \<and> x \<le> 2 ^ 64"
proof -
  have one: "(1::rat) \<le> of_nat n" using assms(1) by simp
  have top: "(of_nat n :: rat) \<le> 2 ^ 63"
    using assms(2) by (metis less_imp_le of_nat_le_iff of_nat_numeral of_nat_power)
  have "(2::rat) powi (- 1022) \<le> 2 powi 0" by (rule power_int_increasing) simp_all
  then have lo: "(2::rat) powi (- 1022) \<le> of_nat n" using one by simp
  have "(2::rat) powi 63 \<le> 2 powi 1022" by (rule power_int_increasing) simp_all
  then have hi: "(of_nat n :: rat) \<le> 2 powi 1022" using top by simp
  from round_double_normal[OF lo hi] obtain v where
    v: "round_double (of_nat n) = Fin v" "of_nat n / 2 \<le> v" "v \<le> 2 * of_nat n" by blast
  have "1 / 2 \<le> v" using v(2) one by linarith
  moreover have "v \<le> 2 ^ 64" using v(3) top by simp
  ultimately show ?thesis using v(1) by (simp add: to_float_def)
qed

lemma float_ratio:
  assumes "0 < a" and "a < 2 ^ 63" and "0 < b" and "b < 2 ^ 63"
  shows "\<exists>y v. to_float b = Inr y \<and> true_div a y = Inr (Fin v) \<and> 0 < v"
proof -
  from to_float_size[OF assms(3,4)] obtain y where
    y: "to_float b = Inr y" "1 / 2 \<le> y" "y \<le> 2 ^ 64" by blast
  from to_float_size[OF assms(1,2)] obtain x where
    x: "to_float a = Inr x" "1 / 2 \<le> x" "x \<le> 2 ^ 64" by blast
  have ypos: "0 < y" using y(2) by linarith
  have xpos: "0 < x" using x(2) by linarith
  have "x / y \<le> 2 ^ 64 / (1 / 2)" using x(3) y(2) xpos by (intro frac_le) auto
  then have q2: "x / y \<le> 2 ^ 65" by simp
  have "(1 / 2) / 2 ^ 64 \<le> x / y" using x(2) y(3) ypos by (intro frac_le) auto
  then have q1: "1 / 2 ^ 65 \<le> x / y" by simp
  have "(2::rat) powi (- 1022) \<le> 2 powi (- 65)" by (rule power_int_increasing) simp_all
  also have "(2::rat) powi (- 65) = 1 / 2 ^ 65" by (simp add: power_int_minus_divide)
  finally have lo: "2 powi (- 1022) \<le> x / y" using q1 by linarith
  have "(2::rat) powi 65 \<le> 2 powi 1022" by (rule power_int_increasing) simp_all
  then have hi: "x / y \<le> 2 powi 1022" using q2 by simp
  from round_double_normal[OF lo hi] obtain v where
    v: "round_double (x / y) = Fin v" "x / y / 2 \<le> v" by blast
  have "0 < x / y / 2" using xpos ypos by simp
  with v(2) have "0 < v" by linarith
  with y(1) x(1) v(1) ypos show ?thesis by (simp add: true_div_def)
qed

lemma readAll_file_Inr:
  "readAll_file E f path = Inr r \<Longrightarrow>
   \<exists>b. f path = Some b \<and> path \<noteq> [] \<and> readAll E b = Inr r"
  by (auto simp: readAll_file_def read_file_def isfile_def split: if_splits)

lemma read_write_done:
  assumes "snd (read_write E s d w) = None"
  shows "\<exists>grids written compressed.
           readAll_file E (files w) s = Inr grids \<and>
           files (fst (read_write E s d w)) = (files w)(d \<mapsto> written) \<and>
           readAll_file E ((files w)(d \<mapsto> written)) d = Inr compressed"
  using assms
  by (auto simp: read_write_def Let_def split: sum.splits if_splits)

text \<open>
  C6. The ratio is printed only when the statements before the size lines have ended
  without an exception. Then both files exist, and when the library reads no empty file and
  no file is larger than a file size can be (\<open>st_size\<close> is a signed 64-bit integer), both
  conversions to a float and the division raise nothing, and the ratio printed is a double
  that is finite and strictly positive.
\<close>

theorem reported_ratio_positive_finite:
  assumes lib: "\<forall>b r. readAll E b = Inr r \<longrightarrow> b \<noteq> []"
    and sizes: "\<forall>p b. files (fst (read_write E s d w)) p = Some b \<longrightarrow> length b < 2 ^ 63"
    and reached: "snd (read_write E s d w) = None"
  shows "\<exists>a b y v.
           getsize (files (fst (read_write E s d w))) s = Inr a \<and>
           getsize (files (fst (read_write E s d w))) d = Inr b \<and>
           to_float b = Inr y \<and> true_div a y = Inr (Fin v) \<and> 0 < v \<and>
           round_trip E l s d w =
             (put (CompRatio (Fin v)) (put (OutputSize b) (put (InputSize a)
                (put (Print (l @ '' read/write successful.'')) (fst (read_write E s d w))))),
              None)"
proof -
  let ?w1 = "fst (read_write E s d w)"
  from read_write_done[OF reached] obtain grids written compressed where
    r1: "readAll_file E (files w) s = Inr grids"
    and f1: "files ?w1 = (files w)(d \<mapsto> written)"
    and r2: "readAll_file E ((files w)(d \<mapsto> written)) d = Inr compressed" by blast
  from readAll_file_Inr[OF r1] obtain sb where
    sb: "files w s = Some sb" "s \<noteq> []" "readAll E sb = Inr grids" by blast
  from readAll_file_Inr[OF r2] have d: "d \<noteq> []" and rw: "readAll E written = Inr compressed"
    by auto
  have wne: "written \<noteq> []" using lib rw by blast
  have sne: "sb \<noteq> []" using lib sb(3) by blast
  obtain sa where sa: "files ?w1 s = Some sa" "sa \<noteq> []"
    using f1 sb(1) sne wne by (cases "s = d") auto
  have da: "files ?w1 d = Some written" using f1 by simp
  have la: "0 < length sa" "length sa < 2 ^ 63" using sa sizes by auto
  have lb: "0 < length written" "length written < 2 ^ 63" using wne da sizes by auto
  from float_ratio[OF la lb] obtain y v where
    yv: "to_float (length written) = Inr y" "true_div (length sa) y = Inr (Fin v)" "0 < v"
    by blast
  have g1: "getsize (files ?w1) s = Inr (length sa)"
    using sa sb(2) by (simp add: getsize_def isfile_def)
  have g2: "getsize (files ?w1) d = Inr (length written)"
    using da d by (simp add: getsize_def isfile_def)
  have "round_trip E l s d w = size_report l s d ?w1"
    using reached by (cases "read_write E s d w") (simp add: round_trip_def)
  also have "\<dots> = (put (CompRatio (Fin v)) (put (OutputSize (length written))
      (put (InputSize (length sa)) (put (Print (l @ '' read/write successful.'')) ?w1))), None)"
    using g1 g2 yv by (simp add: size_report_def Let_def)
  finally show ?thesis using g1 g2 yv by blast
qed

theorem reported_ratio_positive_finite_witness:
  "snd (read_write toy ''bunny.vdb'' ''bunny_output.vdb'' one_grid_dir) = None \<and>
   console (fst (round_trip toy ''bunny.vdb'' ''bunny.vdb'' ''bunny_output.vdb'' one_grid_dir))
     = [Print ''bunny.vdb read/write successful.'', InputSize 8, OutputSize 15,
        CompRatio (Fin (4803839602528529 / 9007199254740992))] \<and>
   (\<exists>a b y v.
      getsize (files (fst (read_write toy ''bunny.vdb'' ''bunny_output.vdb'' one_grid_dir)))
        ''bunny.vdb'' = Inr a \<and>
      getsize (files (fst (read_write toy ''bunny.vdb'' ''bunny_output.vdb'' one_grid_dir)))
        ''bunny_output.vdb'' = Inr b \<and>
      to_float b = Inr y \<and> true_div a y = Inr (Fin v) \<and> 0 < v \<and>
      round_trip toy ''bunny.vdb'' ''bunny.vdb'' ''bunny_output.vdb'' one_grid_dir =
        (put (CompRatio (Fin v)) (put (OutputSize b) (put (InputSize a)
           (put (Print (''bunny.vdb'' @ '' read/write successful.''))
              (fst (read_write toy ''bunny.vdb'' ''bunny_output.vdb'' one_grid_dir))))),
         None))"
proof -
  have lib: "\<forall>b r. readAll toy b = Inr r \<longrightarrow> b \<noteq> []"
    by (auto simp: toy_def toy_grids_def)
  have 1: "readAll_file toy (files one_grid_dir) ''bunny.vdb'' = Inr (Grids (density # []) # [Meta []])"
    by code_simp
  have 2: "vdb_write toy (density\<lparr>name := name density @ ''_output''\<rparr> # []) = Inr ''density_output;''"
    by code_simp
  have "files (fst (read_write toy ''bunny.vdb'' ''bunny_output.vdb'' one_grid_dir))
      = (files one_grid_dir)(''bunny_output.vdb'' \<mapsto> ''density_output;'')"
    using read_write_accepts[OF 1 _ 2, of "''bunny_output.vdb''"] by simp
  then have sizes: "\<forall>p b. files (fst (read_write toy ''bunny.vdb'' ''bunny_output.vdb'' one_grid_dir)) p
      = Some b \<longrightarrow> length b < 2 ^ 63"
    by (auto simp: one_grid_dir_def split: if_splits)
  have reached: "snd (read_write toy ''bunny.vdb'' ''bunny_output.vdb'' one_grid_dir) = None"
    by code_simp
  have out: "console (fst (round_trip toy ''bunny.vdb'' ''bunny.vdb'' ''bunny_output.vdb'' one_grid_dir))
     = [Print ''bunny.vdb read/write successful.'', InputSize 8, OutputSize 15,
        CompRatio (Fin (4803839602528529 / 9007199254740992))]"
    by code_simp
  show ?thesis
    using reached out reported_ratio_positive_finite[OF lib sizes reached, of "''bunny.vdb''"]
    by blast
qed

subsection \<open>The comparison\<close>

lemma diff_console:
  "console (fst (diff E s d w)) =
     console w @ Print ''Comparing grids with AX...'' #
       (case run_ax E (files w) s d of
          Inl e \<Rightarrow> []
        | Inr out \<Rightarrow> if out \<noteq> [] then [differ_line s d] else [])"
  by (simp add: diff_def Let_def split: sum.splits)

lemma diff_raises:
  "snd (diff E s d w) = (case run_ax E (files w) s d of Inl e \<Rightarrow> Some e | Inr out \<Rightarrow> None)"
  by (simp add: diff_def Let_def split: sum.splits)

lemma run_ax_iff:
  "run_ax E f s d = Inr out \<longleftrightarrow>
   (\<exists>a b. fingerprint E f s = Inr a \<and> fingerprint E f d = Inr b \<and> a \<noteq> b \<and>
      vdb_ax E (the (f s)) (the (f d)) (ax_code a b) = Inr out)"
  by (auto simp: run_ax_def split: sum.splits if_splits)

lemma diff_reports:
  "console (fst (diff E s d w)) =
     console w @ Print ''Comparing grids with AX...'' #
       (if \<exists>a b out. fingerprint E (files w) s = Inr a \<and> fingerprint E (files w) d = Inr b \<and>
             a \<noteq> b \<and> vdb_ax E (the (files w s)) (the (files w d)) (ax_code a b) = Inr out \<and>
             out \<noteq> []
        then [differ_line s d] else [])"
proof (cases "run_ax E (files w) s d")
  case (Inl e)
  then have "\<And>out. run_ax E (files w) s d \<noteq> Inr out" by simp
  then have "\<not> (\<exists>a b out. fingerprint E (files w) s = Inr a \<and> fingerprint E (files w) d = Inr b \<and>
             a \<noteq> b \<and> vdb_ax E (the (files w s)) (the (files w d)) (ax_code a b) = Inr out \<and>
             out \<noteq> [])"
    unfolding run_ax_iff by blast
  with Inl show ?thesis by (simp add: diff_console)
next
  case (Inr out)
  then have "(\<exists>a b out'. fingerprint E (files w) s = Inr a \<and> fingerprint E (files w) d = Inr b \<and>
             a \<noteq> b \<and> vdb_ax E (the (files w s)) (the (files w d)) (ax_code a b) = Inr out' \<and>
             out' \<noteq> []) \<longleftrightarrow> out \<noteq> []"
    unfolding run_ax_iff by fastforce
  with Inr show ?thesis by (simp add: diff_console)
qed

text \<open>
  C8, as the code has it. \<open>read_write_test_compression.py\<close> calls \<open>diff\<close> exactly when
  \<open>diff_with_ax\<close> is set and both files exist; \<open>read_write_blosc_compression.py\<close> calls it
  exactly when both files exist. A call prints its first line, and after it the mismatch
  line exactly when both fingerprints were read and differ and \<open>vdb_ax\<close>, run on the two
  files with the snippet made of the fingerprints, returned standard output that is not
  empty. Empty output, and a call that an exception leaves before or at the start of the
  tool, print no mismatch line.
\<close>

theorem differ_invoked_and_reports:
  "console (fst (test_differ E ax s d w)) =
     console w @
       (if ax \<and> isfile (files w) s \<and> isfile (files w) d
        then Print ''Comparing grids with AX...'' #
               (if \<exists>a b out. fingerprint E (files w) s = Inr a \<and>
                     fingerprint E (files w) d = Inr b \<and> a \<noteq> b \<and>
                     vdb_ax E (the (files w s)) (the (files w d)) (ax_code a b) = Inr out \<and>
                     out \<noteq> []
                then [differ_line s d] else [])
        else []) \<and>
   console (fst (blosc_differ E s d w)) =
     console w @
       (if isfile (files w) s \<and> isfile (files w) d
        then Print ''Comparing grids with AX...'' #
               (if \<exists>a b out. fingerprint E (files w) s = Inr a \<and>
                     fingerprint E (files w) d = Inr b \<and> a \<noteq> b \<and>
                     vdb_ax E (the (files w s)) (the (files w d)) (ax_code a b) = Inr out \<and>
                     out \<noteq> []
                then [differ_line s d] else [])
        else [])"
  by (simp add: test_differ_def blosc_differ_def diff_reports)

theorem differ_invoked_and_reports_witness:
  "fingerprint noisy (files compared_dir) ''bunny.vdb'' = Inr ''float@density'' \<and>
   fingerprint noisy (files compared_dir) ''bunny_output.vdb'' = Inr ''float@density_output'' \<and>
   vdb_ax noisy (the (files compared_dir ''bunny.vdb'')) (the (files compared_dir ''bunny_output.vdb''))
     (ax_code ''float@density'' ''float@density_output'') = Inr ''0.5'' \<and>
   console (fst (test_differ noisy True ''bunny.vdb'' ''bunny_output.vdb'' compared_dir))
     = [Print ''Comparing grids with AX...'', differ_line ''bunny.vdb'' ''bunny_output.vdb''] \<and>
   console (fst (blosc_differ noisy ''bunny.vdb'' ''bunny_output.vdb'' compared_dir))
     = [Print ''Comparing grids with AX...'', differ_line ''bunny.vdb'' ''bunny_output.vdb''] \<and>
   console (fst (test_differ toy True ''bunny.vdb'' ''bunny_output.vdb'' compared_dir))
     = [Print ''Comparing grids with AX...''] \<and>
   console (fst (test_differ noisy False ''bunny.vdb'' ''bunny_output.vdb'' compared_dir)) = []"
proof -
  have 1: "fingerprint noisy (files compared_dir) ''bunny.vdb'' = Inr ''float@density''"
    "fingerprint noisy (files compared_dir) ''bunny_output.vdb'' = Inr ''float@density_output''"
    "fingerprint toy (files compared_dir) ''bunny.vdb'' = Inr ''float@density''"
    "fingerprint toy (files compared_dir) ''bunny_output.vdb'' = Inr ''float@density_output''"
    by code_simp+
  have 2: "\<And>a b code. vdb_ax noisy a b code = Inr ''0.5''" "\<And>a b code. vdb_ax toy a b code = Inr []"
    by (simp_all add: noisy_def toy_def)
  have 3: "isfile (files compared_dir) ''bunny.vdb''"
    "isfile (files compared_dir) ''bunny_output.vdb''" "console compared_dir = []"
    by code_simp+
  show ?thesis
    using 1 2 3
      differ_invoked_and_reports[where E = noisy and ax = True and s = "''bunny.vdb''"
        and d = "''bunny_output.vdb''" and w = compared_dir]
      differ_invoked_and_reports[where E = toy and ax = True and s = "''bunny.vdb''"
        and d = "''bunny_output.vdb''" and w = compared_dir]
      differ_invoked_and_reports[where E = noisy and ax = False and s = "''bunny.vdb''"
        and d = "''bunny_output.vdb''" and w = compared_dir]
    by simp
qed

text \<open>
  C8 as stated fails in \<open>read_write_test_compression.py\<close> when pyopenvdb has no \<open>ax\<close>
  module: both files exist after the round trip and \<open>diff\<close> is not called.
\<close>

theorem differ_skipped_without_ax:
  "isfile (files (after (test_try toy ''bunny'' bunny_zip fetched_dir)))
     (src (test_try toy ''bunny'' bunny_zip fetched_dir)) \<and>
   isfile (files (after (test_try toy ''bunny'' bunny_zip fetched_dir)))
     (dst (test_try toy ''bunny'' bunny_zip fetched_dir)) \<and>
   console (fst (test_differ toy False (src (test_try toy ''bunny'' bunny_zip fetched_dir))
        (dst (test_try toy ''bunny'' bunny_zip fetched_dir))
        (after (test_try toy ''bunny'' bunny_zip fetched_dir))))
     = console (after (test_try toy ''bunny'' bunny_zip fetched_dir)) \<and>
   snd (test_job toy False bunny_zip fetched_dir) = None \<and>
   Print ''Comparing grids with AX...'' \<notin> set (console (fst (test_job toy False bunny_zip fetched_dir)))"
  by code_simp

subsection \<open>How many units a run takes out\<close>

text \<open>
  When every thread started is dead after \<open>T\<close> sleeps, no archive name is empty and the
  loop body raises nothing, the loop ends, given \<open>T\<close> sleeps a round and a round for each
  name: it has then taken out one unit for each archive name of the catalog, not one
  for each entry. Whatever the schedule, a catalog in which two entries share an archive name
  has fewer units taken out than threads started.
\<close>

lemma first_done_None:
  "first_done p d = None \<Longrightarrow> (f, th) \<in> set d \<Longrightarrow> \<not> p th"
  by (induction p d rule: first_done.induct) (auto split: if_splits)

lemma await_done_finds:
  assumes "\<And>t' f th. T \<le> t' \<Longrightarrow> (f, th) \<in> set d \<Longrightarrow> dead t' th"
    and "d \<noteq> []" and "[] \<notin> fst ` set d"
  shows "T \<le> t + polls \<Longrightarrow> 0 < polls \<Longrightarrow> \<exists>u. await_done polls dead t d = Some u"
proof (induction polls arbitrary: t)
  case 0
  then show ?case by simp
next
  case (Suc polls)
  show ?case
  proof (cases "first_done (dead (Suc t)) d")
    case None
    obtain f th where m: "(f, th) \<in> set d" using assms(2) by (cases d) auto
    from first_done_None[OF None m] have "\<not> dead (Suc t) th" .
    with assms(1)[of "Suc t" f th] m have lt: "Suc t < T" by (meson not_le)
    with Suc.prems have "T \<le> Suc t + polls" "0 < polls" by simp_all
    from Suc.IH[OF this] None show ?thesis by simp
  next
    case (Some u)
    obtain f th where u: "u = (f, th)" by (cases u)
    with Some first_done_mem[of "dead (Suc t)" d f th] have "(f, th) \<in> set d" by simp
    with assms(3) have "f \<noteq> []" by force
    with Some u show ?thesis by simp
  qed
qed

lemma delete_absent: "k \<notin> fst ` set d \<Longrightarrow> AList.delete k d = d"
  by (induction d) auto

lemma length_delete:
  "distinct (map fst d) \<Longrightarrow> (k, v) \<in> set d \<Longrightarrow> Suc (length (AList.delete k d)) = length d"
  by (induction d) (auto simp: delete_absent image_iff)

lemma completion_loop_finishes:
  assumes quiet: "\<And>z w. snd (process z w) = None"
  shows "(\<And>t' f th. T \<le> t' \<Longrightarrow> (f, th) \<in> set d \<Longrightarrow> dead t' th) \<Longrightarrow>
     [] \<notin> fst ` set d \<Longrightarrow> distinct (map fst d) \<Longrightarrow> length d \<le> rounds \<Longrightarrow>
     T \<le> polls \<Longrightarrow> 0 < polls \<Longrightarrow>
     snd (snd (completion_loop process dead polls rounds t d w acc)) = Finished \<and>
     length (fst (snd (completion_loop process dead polls rounds t d w acc))) = length acc + length d"
proof (induction rounds arbitrary: t d w acc)
  case 0
  then show ?case by simp
next
  case (Suc rounds)
  show ?case
  proof (cases "d = []")
    case True
    then show ?thesis by simp
  next
    case False
    have "T \<le> t + polls" using Suc.prems(5) by simp
    have "\<exists>u. await_done polls dead t d = Some u"
    proof (rule await_done_finds[where T = T])
      show "\<And>t' f th. T \<le> t' \<Longrightarrow> (f, th) \<in> set d \<Longrightarrow> dead t' th" by (rule Suc.prems(1))
      show "d \<noteq> []" by (rule False)
      show "[] \<notin> fst ` set d" by (rule Suc.prems(2))
      show "T \<le> t + polls" by (rule \<open>T \<le> t + polls\<close>)
      show "0 < polls" by (rule Suc.prems(6))
    qed
    then obtain u where aw: "await_done polls dead t d = Some u" by blast
    obtain zf th t' where u: "u = (zf, th, t')" by (cases u)
    from await_done_mem[of polls dead t d zf th t'] aw u have mem: "(zf, th) \<in> set d" by simp
    obtain w' where p: "process zf w = (w', None)"
      using quiet[of zf w] by (cases "process zf w") auto
    let ?d = "AList.delete zf d"
    have sub: "set ?d \<subseteq> set d" by (auto simp: AList.delete_eq)
    have len: "Suc (length ?d) = length d" using length_delete[OF Suc.prems(3) mem] .
    have a1: "\<And>t' f th. T \<le> t' \<Longrightarrow> (f, th) \<in> set ?d \<Longrightarrow> dead t' th"
      using Suc.prems(1) sub by blast
    have a2: "[] \<notin> fst ` set ?d" using Suc.prems(2) sub by blast
    have a3: "distinct (map fst ?d)" using Suc.prems(3) by (simp add: AList.distinct_delete)
    have a4: "length ?d \<le> rounds" using len Suc.prems(4) by simp
    have "snd (snd (completion_loop process dead polls rounds t' ?d w' (acc @ [(zf, th, t')]))) = Finished \<and>
      length (fst (snd (completion_loop process dead polls rounds t' ?d w' (acc @ [(zf, th, t')]))))
        = length (acc @ [(zf, th, t')]) + length ?d"
    proof (rule Suc.IH)
      show "\<And>t' f th. T \<le> t' \<Longrightarrow> (f, th) \<in> set ?d \<Longrightarrow> dead t' th" by (rule a1)
    qed (use a2 a3 a4 Suc.prems(5,6) in simp_all)
    then show ?thesis using False aw u p len by simp
  qed
qed

lemma init_downloads_keys:
  "fst ` set (table (init_downloads E urls i s)) = fst ` set (table s) \<union> basename ` set urls"
proof (induction urls arbitrary: i s)
  case Nil
  then show ?case by simp
next
  case (Cons url urls)
  show ?case
    by (auto simp: Let_def Cons.IH AList.dom_update)
qed

lemma init_downloads_values:
  "snd ` set (table s) \<subseteq> {..<i} \<Longrightarrow>
   snd ` set (table (init_downloads E urls i s)) \<subseteq> {..<i + length urls}"
proof (induction urls arbitrary: i s)
  case Nil
  then show ?case by simp
next
  case (Cons url urls)
  have "snd ` set (AList.update (basename url) i (table s)) \<subseteq> {..<Suc i}"
    using update_values[of "basename url" i "table s"] Cons.prems by fastforce
  from Cons.IH[of _ "Suc i", OF _] this show ?case by (simp add: Let_def)
qed

lemma table_size:
  "length (table (init_downloads E urls 0 \<lparr>disk = w, table = [], threads = []\<rparr>))
     = card (basename ` set urls)"
proof -
  let ?s = "init_downloads E urls 0 \<lparr>disk = w, table = [], threads = []\<rparr>"
  have "distinct (map fst (table ?s))"
    using init_downloads_table[of "\<lparr>disk = w, table = [], threads = []\<rparr>" 0 E urls] by simp
  then have "card (set (map fst (table ?s))) = length (table ?s)"
    using distinct_card[of "map fst (table ?s)"] by simp
  then show ?thesis by (simp add: init_downloads_keys)
qed

lemma started_all:
  "started (pipeline E process dead polls rounds urls w) = [0 ..< length urls]"
  by (simp add: pipeline_def Let_def init_downloads_threads)

lemma pipeline_drains_every_name:
  assumes "\<And>z v. snd (process z v) = None"
    and "\<And>t i. T \<le> t \<Longrightarrow> i < length urls \<Longrightarrow> dead t i"
    and "[] \<notin> basename ` set urls"
    and "card (basename ` set urls) \<le> rounds" and "T \<le> polls" and "0 < polls"
  shows "outcome (pipeline E process dead polls rounds urls w) = Finished \<and>
         length (yielded (pipeline E process dead polls rounds urls w)) = card (basename ` set urls) \<and>
         length (started (pipeline E process dead polls rounds urls w)) = length urls"
proof -
  let ?s = "init_downloads E urls 0 \<lparr>disk = w, table = [], threads = []\<rparr>"
  have v: "snd ` set (table ?s) \<subseteq> {..<length urls}"
    using init_downloads_values[of "\<lparr>disk = w, table = [], threads = []\<rparr>" 0 E urls] by simp
  have k: "fst ` set (table ?s) = basename ` set urls" by (simp add: init_downloads_keys)
  have d: "distinct (map fst (table ?s))"
    using init_downloads_table[of "\<lparr>disk = w, table = [], threads = []\<rparr>" 0 E urls] by simp
  have a1: "\<And>t' f th. T \<le> t' \<Longrightarrow> (f, th) \<in> set (table ?s) \<Longrightarrow> dead t' th"
  proof -
    fix t' f th assume "T \<le> t'" "(f, th) \<in> set (table ?s)"
    moreover from this v have "th < length urls" by force
    ultimately show "dead t' th" using assms(2) by blast
  qed
  have a2: "[] \<notin> fst ` set (table ?s)" using k assms(3) by simp
  have a4: "length (table ?s) \<le> rounds" using table_size[of E urls w] assms(4) by simp
  have "snd (snd (completion_loop process dead polls rounds 0 (table ?s) (disk ?s) [])) = Finished \<and>
     length (fst (snd (completion_loop process dead polls rounds 0 (table ?s) (disk ?s) [])))
       = length ([] :: (string \<times> nat \<times> nat) list) + length (table ?s)"
  proof (rule completion_loop_finishes[where T = T])
    show "\<And>z w. snd (process z w) = None" by (rule assms(1))
    show "\<And>t' f th. T \<le> t' \<Longrightarrow> (f, th) \<in> set (table ?s) \<Longrightarrow> dead t' th" by (rule a1)
  qed (use a2 d a4 assms(5,6) in simp_all)
  then show ?thesis
    by (simp add: pipeline_def Let_def table_size init_downloads_threads)
qed

lemma completion_loop_names:
  "fst ` set (fst (snd (completion_loop process dead polls rounds t d w acc)))
     \<subseteq> fst ` set acc \<union> fst ` set d"
proof (induction rounds arbitrary: t d w acc)
  case 0
  then show ?case by simp
next
  case (Suc rounds)
  show ?case
  proof (cases "d = []")
    case True
    then show ?thesis by simp
  next
    case False
    show ?thesis
    proof (cases "await_done polls dead t d")
      case None
      with False show ?thesis by simp
    next
      case (Some u)
      obtain zf th t' where u: "u = (zf, th, t')" by (cases u)
      from await_done_mem[of polls dead t d zf th t'] Some u have mem: "(zf, th) \<in> set d" by simp
      then have zf: "zf \<in> fst ` set d" by force
      have sub: "fst ` set (AList.delete zf d) \<subseteq> fst ` set d" by (auto simp: AList.delete_eq)
      obtain w' x where p: "process zf w = (w', x)" by (cases "process zf w")
      show ?thesis
      proof (cases x)
        case None
        have "fst ` set (fst (snd (completion_loop process dead polls rounds t' (AList.delete zf d) w'
                 (acc @ [(zf, th, t')]))))
              \<subseteq> fst ` set (acc @ [(zf, th, t')]) \<union> fst ` set (AList.delete zf d)"
          by (rule Suc.IH)
        also have "\<dots> \<subseteq> fst ` set acc \<union> fst ` set d" using zf sub by auto
        finally show ?thesis using False Some u p None by simp
      next
        case (Some e)
        with False \<open>await_done polls dead t d = Some u\<close> u p zf show ?thesis by auto
      qed
    qed
  qed
qed

lemma shared_name_loses_a_unit:
  assumes "\<not> distinct (map basename urls)"
  shows "length (yielded (pipeline E process dead polls rounds urls w))
           < length (started (pipeline E process dead polls rounds urls w))"
proof -
  let ?s = "init_downloads E urls 0 \<lparr>disk = w, table = [], threads = []\<rparr>"
  let ?y = "yielded (pipeline E process dead polls rounds urls w)"
  have c: "card (basename ` set urls) < length urls"
    using assms card_distinct[of "map basename urls"] card_length[of "map basename urls"]
    by (auto simp: le_less)
  have "fst ` set ?y \<subseteq> fst ` set (table ?s)"
    using completion_loop_names[of process dead polls rounds 0 "table ?s" "disk ?s" "[]"]
    by (simp add: pipeline_def Let_def)
  then have "fst ` set ?y \<subseteq> basename ` set urls" by (simp add: init_downloads_keys)
  then have "card (fst ` set ?y) \<le> card (basename ` set urls)"
    by (intro card_mono) auto
  moreover have "distinct (map fst ?y)"
    using pipeline_sound[of dead E process polls rounds urls w] unfolding sound_def by blast
  then have "card (fst ` set ?y) = length ?y"
    using distinct_card[of "map fst ?y"] by simp
  ultimately show ?thesis using c by (simp add: started_all)
qed

text \<open>
  C1 on the catalog of the scripts, where the entries of the armadillo and of the buddha
  model are listed twice: 26 threads are started, and the loop ends after taking out the
  24 threads 2 to 25. Threads 0 and 1, whose dict entries were overwritten by threads 2 and
  3, are never joined.
\<close>

theorem catalog_run_loses_two_units:
  "tally (download_vdb_caches offline (\<lambda>t i. True) 1 26 vdb_urls empty_dir) = (26, [2 ..< 26], Finished)"
  by code_simp

end
